theory Spec2Isabelle
  imports
    Complex_Main
    "HOL-Library.Char_ord"
    "HOL-Library.List_Lexorder"
    "HOL-Library.Sublist"
begin

section \<open>Strings of the host language\<close>

text \<open>
  The table views work on JavaScript strings. A string is modelled as a \<^typ>\<open>string\<close>,
  a list of the code units 0 to 255 (ASCII and the Latin-1 supplement); the relational
  operators \<open><\<close> and \<open>>\<close> on two strings compare code units lexicographically, which is
  the order of \<^theory_text>\<open>List_Lexorder\<close> over \<^theory_text>\<open>Char_ord\<close>.

  \<open>String.prototype.toLowerCase\<close> maps the letters \<open>A\<close> to \<open>Z\<close> and the Latin-1 capitals
  \<open>0xC0\<close> to \<open>0xDE\<close>, the multiplication sign \<open>0xD7\<close> apart, to the letter 32 code units
  further on, and leaves every other code unit of the range alone.
\<close>

definition toLowerChar :: "char \<Rightarrow> char" where
  "toLowerChar c =
     (if (CHR ''A'' \<le> c \<and> c \<le> CHR ''Z'')
         \<or> (CHR 0xC0 \<le> c \<and> c \<le> CHR 0xDE \<and> c \<noteq> CHR 0xD7)
      then char_of (of_char c + (32::nat)) else c)"

definition toLowerCase :: "string \<Rightarrow> string" where
  "toLowerCase s = map toLowerChar s"

text \<open>
  \<open>String.prototype.includes\<close>: \<open>s.includes(t)\<close> holds when \<open>t\<close> occurs in \<open>s\<close> as a
  contiguous run of code units; the empty string occurs in every string.
\<close>

fun str_includes :: "string \<Rightarrow> string \<Rightarrow> bool" where
  "str_includes [] t = (t = [])"
| "str_includes (c # s) t = (prefix t (c # s) \<or> str_includes s t)"

text \<open>
  Optional chaining on a possibly missing text field, as in
  \<open>x?.toLowerCase().includes(term.toLowerCase())\<close>: the result is \<open>undefined\<close>, which the
  surrounding \<open>||\<close> and the filter read as false, when the field is \<open>null\<close> or
  \<open>undefined\<close>.
\<close>

definition opt_includes :: "string option \<Rightarrow> string \<Rightarrow> bool" where
  "opt_includes x searchTerm =
     (case x of None \<Rightarrow> False
      | Some v \<Rightarrow> str_includes (toLowerCase v) (toLowerCase searchTerm))"

text \<open>\<open>x || ''\<close> on an optional text field: a missing and an empty value both give \<open>''\<close>.\<close>

definition or_empty :: "string option \<Rightarrow> string" where
  "or_empty x = (case x of None \<Rightarrow> [] | Some v \<Rightarrow> v)"

text \<open>\<open>x || y\<close> on optional text: \<open>x\<close> when it is present and not empty, else \<open>y\<close>.\<close>

definition or_else :: "string option \<Rightarrow> string option \<Rightarrow> string option" where
  "or_else x y = (case x of None \<Rightarrow> y | Some v \<Rightarrow> (if v = [] then y else Some v))"

section \<open>Meetings\<close>

text \<open>
  The \<open>Meeting\<close> interface of \<open>pages/Meetings.tsx\<close>. Field names carry the prefix \<open>m_\<close>
  (the lead record below shares several names). The interface declares \<open>subject\<close> as a
  string, yet the page guards every read of it (\<open>meeting.subject?.\<close>): a row may carry
  \<open>null\<close> there, and the field is optional in the model. \<open>start_time\<close> and \<open>end_time\<close> are held
  as parsed instants (milliseconds since the epoch), the value \<open>new Date(...)\<close> gives for a
  well-formed timestamp. \<open>attendees\<close> (of unknown type) is not read by the pipeline and
  lives in the record extension.
\<close>

record meeting =
  m_id :: string
  m_subject :: "string option"
  m_description :: "string option"
  m_start_time :: int
  m_end_time :: int
  m_join_url :: "string option"
  m_lead_id :: "string option"
  m_contact_id :: "string option"
  m_created_by :: "string option"
  m_created_at :: "string option"
  m_status :: string
  m_outcome :: "string option"
  m_notes :: "string option"
  m_lead_name :: "string option"
  m_contact_name :: "string option"

text \<open>
  Modelled from the spec: \<open>getMeetingStatus\<close> of \<open>utils/meetingStatus\<close>, which
  \<open>Meetings.tsx\<close> imports; the module is not among the sources this development covers.
  The specification's Status Resolver gives the algorithm, in priority order with the first
  match winning: a stored status \<open>cancelled\<close> gives \<open>cancelled\<close>; else
  \<open>now >= startTime AND now < endTime\<close> gives \<open>ongoing\<close>; else \<open>now >= endTime\<close> gives
  \<open>completed\<close>; else \<open>scheduled\<close>. The clock is read at call time; here \<open>now\<close> is a
  parameter.
\<close>

definition getMeetingStatus :: "int \<Rightarrow> meeting \<Rightarrow> string" where
  "getMeetingStatus now m =
     (if m_status m = ''cancelled'' then ''cancelled''
      else if m_start_time m \<le> now \<and> now < m_end_time m then ''ongoing''
      else if m_end_time m \<le> now then ''completed''
      else ''scheduled'')"

text \<open>\<open>getEffectiveStatus\<close> of \<open>Meetings.tsx\<close> delegates to the resolver.\<close>

definition getEffectiveStatus :: "int \<Rightarrow> meeting \<Rightarrow> string" where
  "getEffectiveStatus now m = getMeetingStatus now m"

text \<open>A meeting with the given subject, stored status and times; every optional field missing.\<close>

definition mk_meeting :: "string \<Rightarrow> string \<Rightarrow> string \<Rightarrow> int \<Rightarrow> int \<Rightarrow> meeting" where
  "mk_meeting i subj st s e =
     \<lparr> m_id = i, m_subject = Some subj, m_description = None, m_start_time = s, m_end_time = e,
       m_join_url = None, m_lead_id = None, m_contact_id = None, m_created_by = None,
       m_created_at = None, m_status = st, m_outcome = None, m_notes = None,
       m_lead_name = None, m_contact_name = None \<rparr>"

section \<open>The Meetings page\<close>

datatype sortDirection = Asc | Desc

text \<open>
  The three conjuncts of the filter callback of \<open>sortedAndFilteredMeetings\<close>. Each of
  \<open>subject\<close>, \<open>lead_name\<close> and \<open>contact_name\<close> is read through \<open>?.\<close> and may be missing.
\<close>

definition matchesSearch :: "string \<Rightarrow> meeting \<Rightarrow> bool" where
  "matchesSearch searchTerm m =
     (opt_includes (m_subject m) searchTerm
      \<or> opt_includes (m_lead_name m) searchTerm
      \<or> opt_includes (m_contact_name m) searchTerm)"

definition matchesStatus :: "int \<Rightarrow> string \<Rightarrow> meeting \<Rightarrow> bool" where
  "matchesStatus now statusFilter m =
     (statusFilter = ''all'' \<or> getEffectiveStatus now m = statusFilter)"

definition matchesOrganizer :: "string \<Rightarrow> meeting \<Rightarrow> bool" where
  "matchesOrganizer organizerFilter m =
     (organizerFilter = ''all'' \<or> m_created_by m = Some organizerFilter)"

definition filterMeetings :: "int \<Rightarrow> string \<Rightarrow> string \<Rightarrow> string \<Rightarrow> meeting list \<Rightarrow> meeting list" where
  "filterMeetings now searchTerm statusFilter organizerFilter ms =
     filter (\<lambda>m. matchesSearch searchTerm m \<and> matchesStatus now statusFilter m
                  \<and> matchesOrganizer organizerFilter m) ms"

text \<open>
  The tail of the sort callback: \<open>aValue < bValue\<close> gives \<open>-1\<close> (ascending) or \<open>1\<close>,
  \<open>aValue > bValue\<close> the opposite, anything else \<open>0\<close>. Both values are strings or both are
  numbers, so one ordered type serves.
\<close>

definition compare_values :: "'a::linorder \<Rightarrow> 'a \<Rightarrow> sortDirection \<Rightarrow> int" where
  "compare_values aValue bValue sortDirection =
     (if aValue < bValue then (if sortDirection = Asc then - 1 else 1)
      else if aValue > bValue then (if sortDirection = Asc then 1 else - 1)
      else 0)"

text \<open>
  The two keys read off a start time, for a local time zone at a fixed offset \<open>tz\<close>
  (milliseconds east of UTC): \<open>new Date(t).setHours(0, 0, 0, 0)\<close>, the instant of the local
  midnight before \<open>t\<close>, and \<open>getHours() * 60 + getMinutes()\<close>, the minutes since it.
\<close>

definition local_midnight :: "int \<Rightarrow> int \<Rightarrow> int" where
  "local_midnight tz t = t - (t + tz) mod 86400000"

definition minutes_of_day :: "int \<Rightarrow> int \<Rightarrow> int" where
  "minutes_of_day tz t = ((t + tz) mod 86400000) div 60000"

text \<open>
  The sort callback. The \<open>switch\<close> on \<open>sortColumn\<close> has no default branch: for a column it
  does not name, \<open>aValue\<close> and \<open>bValue\<close> keep their initial value \<open>''\<close>.
\<close>

definition meetingCompare ::
  "int \<Rightarrow> int \<Rightarrow> string \<Rightarrow> sortDirection \<Rightarrow> meeting \<Rightarrow> meeting \<Rightarrow> int" where
  "meetingCompare tz now sortColumn sortDirection a b =
     (if sortColumn = ''subject'' then
        compare_values (toLowerCase (or_empty (m_subject a)))
          (toLowerCase (or_empty (m_subject b))) sortDirection
      else if sortColumn = ''date'' then
        compare_values (local_midnight tz (m_start_time a)) (local_midnight tz (m_start_time b))
          sortDirection
      else if sortColumn = ''time'' then
        compare_values (minutes_of_day tz (m_start_time a)) (minutes_of_day tz (m_start_time b))
          sortDirection
      else if sortColumn = ''lead_contact'' then
        compare_values
          (toLowerCase (or_empty (or_else (m_lead_name a) (m_contact_name a))))
          (toLowerCase (or_empty (or_else (m_lead_name b) (m_contact_name b))))
          sortDirection
      else if sortColumn = ''status'' then
        compare_values (getEffectiveStatus now a) (getEffectiveStatus now b) sortDirection
      else compare_values (''''::string) '''' sortDirection)"

text \<open>
  \<open>Array.prototype.sort\<close> with a comparator is a stable sort: an element moves in front of
  another only when the comparator puts it strictly first. It is modelled as a stable
  insertion sort.
\<close>

fun insert_by :: "('a \<Rightarrow> 'a \<Rightarrow> int) \<Rightarrow> 'a \<Rightarrow> 'a list \<Rightarrow> 'a list" where
  "insert_by cmp x [] = [x]"
| "insert_by cmp x (y # ys) = (if cmp x y \<le> 0 then x # y # ys else y # insert_by cmp x ys)"

fun array_sort :: "('a \<Rightarrow> 'a \<Rightarrow> int) \<Rightarrow> 'a list \<Rightarrow> 'a list" where
  "array_sort cmp [] = []"
| "array_sort cmp (x # xs) = insert_by cmp x (array_sort cmp xs)"

record toast =
  title :: string
  description :: string
  variant :: string

text \<open>
  The state of the page that the pipeline reads and writes; \<open>toasts\<close> collects what the
  page reports to the user. The Meetings page has no pagination state.
\<close>

record meetingsPage =
  meetings :: "meeting list"
  filteredMeetings :: "meeting list"
  loading :: bool
  searchTerm :: string
  selectedMeetings :: "string list"
  statusFilter :: string
  organizerFilter :: string
  sortColumn :: "string option"
  sortDirection :: sortDirection
  toasts :: "toast list"

text \<open>
  The memoised list: filter, then sort when \<open>sortColumn\<close> is set (\<open>null\<close> and \<open>''\<close> are
  not). The sort works on a copy, \<open>[...filtered].sort(...)\<close>. This is the value the
  callback of \<open>useMemo\<close> computes from the state it runs in; React runs it again when
  \<open>meetings\<close>, \<open>searchTerm\<close>, \<open>statusFilter\<close>, \<open>sortColumn\<close> or \<open>sortDirection\<close> has changed
  (\<open>organizerFilter\<close> is not in the dependency list), and an effect copies the memoised
  value into \<open>filteredMeetings\<close>.
\<close>

definition sortedAndFilteredMeetings :: "int \<Rightarrow> int \<Rightarrow> meetingsPage \<Rightarrow> meeting list" where
  "sortedAndFilteredMeetings tz now st =
     (let filtered = filterMeetings now (searchTerm st) (statusFilter st) (organizerFilter st)
                       (meetings st)
      in case sortColumn st of
           None \<Rightarrow> filtered
         | Some c \<Rightarrow>
             if c = [] then filtered
             else array_sort (meetingCompare tz now c (sortDirection st)) filtered)"

text \<open>
  A row as the query returns it: the meeting's own columns and the two joined objects
  \<open>leads\<close> and \<open>contacts\<close> (\<open>None\<close> for \<open>null\<close>), each holding the joined name, which may be
  \<open>null\<close> as well.
\<close>

record meeting_row =
  row_meeting :: meeting
  row_leads :: "string option option"
  row_contacts :: "string option option"

text \<open>\<open>meeting.leads?.lead_name\<close>.\<close>

definition joined_name :: "string option option \<Rightarrow> string option" where
  "joined_name j = (case j of None \<Rightarrow> None | Some n \<Rightarrow> n)"

definition transform_row :: "meeting_row \<Rightarrow> meeting" where
  "transform_row r =
     (row_meeting r)\<lparr> m_lead_name := joined_name (row_leads r),
                      m_contact_name := joined_name (row_contacts r) \<rparr>"

text \<open>
  What the awaited query does: it rejects (\<open>Query_rejected\<close>), or it resolves to an object
  with \<open>data\<close> (possibly \<open>null\<close>) and \<open>error\<close> (\<open>null\<close> on success).
\<close>

datatype query_result =
    Query_rejected
  | Query_resolved "meeting_row list option" "string option"

definition fetch_failed_toast :: toast where
  "fetch_failed_toast =
     \<lparr> title = ''Error'', description = ''Failed to fetch meetings'', variant = ''destructive'' \<rparr>"

text \<open>
  \<open>fetchMeetings\<close>: a non-null \<open>error\<close> is thrown and caught with a rejection; the \<open>finally\<close>
  block clears \<open>loading\<close> on both paths.
\<close>

definition fetchMeetings :: "query_result \<Rightarrow> meetingsPage \<Rightarrow> meetingsPage" where
  "fetchMeetings res st =
     (case res of
        Query_resolved data None \<Rightarrow>
          st\<lparr> meetings := map transform_row (case data of None \<Rightarrow> [] | Some rows \<Rightarrow> rows),
              selectedMeetings := [],
              loading := False \<rparr>
      | Query_resolved data (Some e) \<Rightarrow>
          st\<lparr> toasts := toasts st @ [fetch_failed_toast], loading := False \<rparr>
      | Query_rejected \<Rightarrow>
          st\<lparr> toasts := toasts st @ [fetch_failed_toast], loading := False \<rparr>)"

text \<open>The header checkbox and the row checkbox of the Meetings table.\<close>

definition handleSelectAll_meetings :: "bool \<Rightarrow> meetingsPage \<Rightarrow> meetingsPage" where
  "handleSelectAll_meetings checked st =
     (if checked then st\<lparr>selectedMeetings := map m_id (filteredMeetings st)\<rparr>
      else st\<lparr>selectedMeetings := []\<rparr>)"

definition handleSelectMeeting :: "string \<Rightarrow> bool \<Rightarrow> meetingsPage \<Rightarrow> meetingsPage" where
  "handleSelectMeeting meetingId checked st =
     (if checked then st\<lparr>selectedMeetings := selectedMeetings st @ [meetingId]\<rparr>
      else st\<lparr>selectedMeetings := filter (\<lambda>i. i \<noteq> meetingId) (selectedMeetings st)\<rparr>)"

section \<open>The Leads table\<close>

text \<open>
  The \<open>Lead\<close> interface of \<open>components/LeadTable.tsx\<close>, field names prefixed with \<open>l_\<close>.
  \<open>id\<close> is required. The interface declares \<open>lead_name\<close> as a string, yet the table
  guards its read (\<open>lead.lead_name?.\<close>): like every other field it is optional in the
  model.
\<close>

record lead =
  l_id :: string
  l_lead_name :: "string option"
  l_company_name :: "string option"
  l_account_company_name :: "string option"
  l_account_id :: "string option"
  l_position :: "string option"
  l_email :: "string option"
  l_phone_no :: "string option"
  l_contact_owner :: "string option"
  l_created_time :: "string option"
  l_modified_time :: "string option"
  l_lead_status :: "string option"
  l_contact_source :: "string option"
  l_linkedin :: "string option"
  l_website :: "string option"
  l_description :: "string option"
  l_created_by :: "string option"
  l_modified_by :: "string option"

text \<open>
  Property access by name, \<open>a[sortField as keyof Lead]\<close>: the value of the named field, and
  \<open>undefined\<close> (\<open>None\<close>) for a missing field and for a name the interface does not have.
\<close>

definition lead_field :: "string \<Rightarrow> lead \<Rightarrow> string option" where
  "lead_field f l =
     (if f = ''id'' then Some (l_id l)
      else if f = ''lead_name'' then l_lead_name l
      else if f = ''company_name'' then l_company_name l
      else if f = ''account_company_name'' then l_account_company_name l
      else if f = ''account_id'' then l_account_id l
      else if f = ''position'' then l_position l
      else if f = ''email'' then l_email l
      else if f = ''phone_no'' then l_phone_no l
      else if f = ''contact_owner'' then l_contact_owner l
      else if f = ''created_time'' then l_created_time l
      else if f = ''modified_time'' then l_modified_time l
      else if f = ''lead_status'' then l_lead_status l
      else if f = ''contact_source'' then l_contact_source l
      else if f = ''linkedin'' then l_linkedin l
      else if f = ''website'' then l_website l
      else if f = ''description'' then l_description l
      else if f = ''created_by'' then l_created_by l
      else if f = ''modified_by'' then l_modified_by l
      else None)"

text \<open>A lead with the given id, name and status; every other field missing.\<close>

definition mk_lead :: "string \<Rightarrow> string \<Rightarrow> string option \<Rightarrow> lead" where
  "mk_lead i n s =
     \<lparr> l_id = i, l_lead_name = Some n, l_company_name = None, l_account_company_name = None,
       l_account_id = None, l_position = None, l_email = None, l_phone_no = None,
       l_contact_owner = None, l_created_time = None, l_modified_time = None,
       l_lead_status = s, l_contact_source = None, l_linkedin = None, l_website = None,
       l_description = None, l_created_by = None, l_modified_by = None \<rparr>"

text \<open>
  \<open>String.prototype.localeCompare\<close> with the default options is the collation of the
  host's locale. It is modelled for the root collation, which English uses, on ASCII:
  \<^item> the control characters other than tab, line feed, vertical tab, form feed and
    carriage return are ignored;
  \<^item> the other characters are ranked as \<open>collation_order\<close> lists them: white space, then
    punctuation and symbols, then the digits, then the letters, a letter having the rank of
    its lower-case form; two strings are ordered by the first rank in which they differ,
    a proper prefix first;
  \<^item> strings with the same ranks are ordered at the first position where they differ,
    the lower-case letter first (\<open>case_order\<close>).

  The order the host gives the code units from \<open>0x80\<close> on (accents, ligatures) is not
  modelled: here they follow the letters in the order of their code units. No statement
  below rests on how \<open>localeCompare\<close> orders two strings, except where it is evaluated on
  given ASCII strings.
\<close>

definition collation_order :: string where
  "collation_order =
     [CHR 0x09, CHR 0x0A, CHR 0x0B, CHR 0x0C, CHR 0x0D, CHR 0x20]
     @ ''_-,;:!?.'' @ [CHR 0x27, CHR 0x22] @ ''()[]{}@*/'' @ [CHR 0x5C] @ ''&#%''
     @ [CHR 0x60] @ ''^+<=>|~$'' @ ''0123456789'' @ ''abcdefghijklmnopqrstuvwxyz''"

fun index_of :: "'a \<Rightarrow> 'a list \<Rightarrow> nat" where
  "index_of x [] = 0"
| "index_of x (y # ys) = (if x = y then 0 else Suc (index_of x ys))"

definition ignorable :: "char \<Rightarrow> bool" where
  "ignorable c = (c < CHR 0x09 \<or> (CHR 0x0D < c \<and> c < CHR 0x20) \<or> c = CHR 0x7F)"

definition collation_rank :: "char \<Rightarrow> nat" where
  "collation_rank c =
     (let k = toLowerChar c; i = index_of k collation_order
      in if i < length collation_order then i else i + of_char k)"

fun case_order :: "string \<Rightarrow> string \<Rightarrow> int" where
  "case_order [] [] = 0"
| "case_order [] (b # bs) = - 1"
| "case_order (a # as) [] = 1"
| "case_order (a # as) (b # bs) =
     (if a = b then case_order as bs else if toLowerChar a = a then - 1 else 1)"

definition localeCompare :: "string \<Rightarrow> string \<Rightarrow> int" where
  "localeCompare x y =
     (let x' = filter (\<lambda>c. \<not> ignorable c) x;
          y' = filter (\<lambda>c. \<not> ignorable c) y
      in if map collation_rank x' < map collation_rank y' then - 1
         else if map collation_rank y' < map collation_rank x' then 1
         else case_order x' y')"

text \<open>
  The sort callback of the filter effect. The field values are strings, on which
  \<open>toString()\<close> is the identity; a missing or empty value is replaced by \<open>''\<close>.
\<close>

definition leadCompare :: "string \<Rightarrow> sortDirection \<Rightarrow> lead \<Rightarrow> lead \<Rightarrow> int" where
  "leadCompare f dir a b =
     (let aValue = or_empty (lead_field f a);
          bValue = or_empty (lead_field f b);
          comparison = localeCompare aValue bValue
      in if dir = Asc then comparison else - comparison)"

text \<open>The three filter steps of the effect, each applied to the output of the one before.\<close>

definition matchesSearch_lead :: "string \<Rightarrow> lead \<Rightarrow> bool" where
  "matchesSearch_lead q l =
     (opt_includes (l_lead_name l) q
      \<or> opt_includes (l_company_name l) q
      \<or> opt_includes (l_email l) q)"

definition searchStep :: "string \<Rightarrow> lead list \<Rightarrow> lead list" where
  "searchStep q ls = filter (matchesSearch_lead q) ls"

definition statusStep :: "string \<Rightarrow> lead list \<Rightarrow> lead list" where
  "statusStep status ls =
     (if status \<noteq> ''all'' then filter (\<lambda>l. l_lead_status l = Some status) ls else ls)"

definition ownerStep :: "string \<Rightarrow> lead list \<Rightarrow> lead list" where
  "ownerStep owner ls =
     (if owner \<noteq> ''all'' then filter (\<lambda>l. l_created_by l = Some owner) ls else ls)"

definition filterLeads :: "string \<Rightarrow> string \<Rightarrow> string \<Rightarrow> lead list \<Rightarrow> lead list" where
  "filterLeads q status owner ls = ownerStep owner (statusStep status (searchStep q ls))"

text \<open>
  The state of the table; \<open>selectedLeads\<close> is owned by the parent page and passed in with
  its setter. The names \<open>searchTerm\<close>, \<open>statusFilter\<close> and \<open>sortDirection\<close> carry a suffix,
  the Meetings page has fields of the same names.
\<close>

record leadTable =
  leads :: "lead list"
  filteredLeads :: "lead list"
  searchTerm_leads :: string
  statusFilter_leads :: string
  ownerFilter :: string
  currentPage :: int
  itemsPerPage :: int
  sortField :: "string option"
  sortDirection_leads :: sortDirection
  selectedLeads :: "string list"

text \<open>
  The effect with the dependencies \<open>leads\<close>, \<open>searchTerm\<close>, \<open>statusFilter\<close>, \<open>ownerFilter\<close>,
  \<open>sortField\<close> and \<open>sortDirection\<close>: filter, sort when \<open>sortField\<close> is set, store the list
  and go back to the first page.
\<close>

definition filterEffect :: "leadTable \<Rightarrow> leadTable" where
  "filterEffect st =
     (let filtered = filterLeads (searchTerm_leads st) (statusFilter_leads st) (ownerFilter st)
                       (leads st);
          sorted = (case sortField st of
                      None \<Rightarrow> filtered
                    | Some f \<Rightarrow>
                        if f = [] then filtered
                        else array_sort (leadCompare f (sortDirection_leads st)) filtered)
      in st\<lparr> filteredLeads := sorted, currentPage := 1 \<rparr>)"

text \<open>
  The state setters that feed the effect. React runs an effect after a render in which one
  of its dependencies has changed; setting a state to the value it already has changes
  nothing.
\<close>

definition setSearchTerm :: "string \<Rightarrow> leadTable \<Rightarrow> leadTable" where
  "setSearchTerm v st =
     (if v = searchTerm_leads st then st else filterEffect (st\<lparr>searchTerm_leads := v\<rparr>))"

definition setStatusFilter :: "string \<Rightarrow> leadTable \<Rightarrow> leadTable" where
  "setStatusFilter v st =
     (if v = statusFilter_leads st then st else filterEffect (st\<lparr>statusFilter_leads := v\<rparr>))"

definition setOwnerFilter :: "string \<Rightarrow> leadTable \<Rightarrow> leadTable" where
  "setOwnerFilter v st =
     (if v = ownerFilter st then st else filterEffect (st\<lparr>ownerFilter := v\<rparr>))"

definition handleSort :: "string \<Rightarrow> leadTable \<Rightarrow> leadTable" where
  "handleSort field st =
     (if sortField st = Some field then
        filterEffect
          (st\<lparr>sortDirection_leads := (if sortDirection_leads st = Asc then Desc else Asc)\<rparr>)
      else filterEffect (st\<lparr>sortField := Some field, sortDirection_leads := Asc\<rparr>))"

text \<open>
  \<open>Array.prototype.slice(s, e)\<close>: a negative index counts from the end of the array,
  both indices are clamped to the array, and the result is empty when the final index is
  not beyond the first.
\<close>

definition slice_index :: "nat \<Rightarrow> int \<Rightarrow> nat" where
  "slice_index len k = (if k < 0 then nat (max (int len + k) 0) else min (nat k) len)"

definition slice :: "'a list \<Rightarrow> int \<Rightarrow> int \<Rightarrow> 'a list" where
  "slice xs s e =
     (let k = slice_index (length xs) s;
          final = slice_index (length xs) e
      in take (final - k) (drop k xs))"

definition getCurrentPageLeads :: "leadTable \<Rightarrow> lead list" where
  "getCurrentPageLeads st =
     (let startIndex = (currentPage st - 1) * itemsPerPage st
      in slice (filteredLeads st) startIndex (startIndex + itemsPerPage st))"

text \<open>
  \<open>Math.ceil(filteredLeads.length / itemsPerPage)\<close>, for a page size that is not zero (the
  state starts at 50 and its setter is never called).
\<close>

definition totalPages :: "leadTable \<Rightarrow> int" where
  "totalPages st = \<lceil>real (length (filteredLeads st)) / real_of_int (itemsPerPage st)\<rceil>"

text \<open>The header checkbox and the row checkbox of the Leads table.\<close>

definition handleSelectAll :: "bool \<Rightarrow> leadTable \<Rightarrow> leadTable" where
  "handleSelectAll checked st =
     (if checked then
        (let pageLeads = slice (getCurrentPageLeads st) 0 50
         in st\<lparr>selectedLeads := map l_id pageLeads\<rparr>)
      else st\<lparr>selectedLeads := []\<rparr>)"

definition handleSelectLead :: "string \<Rightarrow> bool \<Rightarrow> leadTable \<Rightarrow> leadTable" where
  "handleSelectLead leadId checked st =
     (if checked then st\<lparr>selectedLeads := selectedLeads st @ [leadId]\<rparr>
      else st\<lparr>selectedLeads := filter (\<lambda>i. i \<noteq> leadId) (selectedLeads st)\<rparr>)"

text \<open>
  A click on a row checkbox. The checkbox is rendered with
  \<open>checked={selectedLeads.includes(lead.id)}\<close> and reports the opposite of what it shows, so
  the handler is called with \<open>true\<close> exactly for an id that is not selected yet.
\<close>

definition clickLeadCheckbox :: "string \<Rightarrow> leadTable \<Rightarrow> leadTable" where
  "clickLeadCheckbox leadId st = handleSelectLead leadId (leadId \<notin> set (selectedLeads st)) st"

definition clickMeetingCheckbox :: "string \<Rightarrow> meetingsPage \<Rightarrow> meetingsPage" where
  "clickMeetingCheckbox meetingId st =
     handleSelectMeeting meetingId (meetingId \<notin> set (selectedMeetings st)) st"

section \<open>Sample data\<close>

text \<open>Numbered records with pairwise different ids, and pages that show a given list.\<close>

definition lead_no :: "nat \<Rightarrow> lead" where
  "lead_no k = mk_lead (replicate (Suc k) CHR ''x'') ''Lead'' None"

definition meeting_no :: "nat \<Rightarrow> meeting" where
  "meeting_no k = mk_meeting (replicate (Suc k) CHR ''x'') ''Demo'' ''scheduled'' 10 20"

definition leadTable_of :: "lead list \<Rightarrow> int \<Rightarrow> leadTable" where
  "leadTable_of ls p =
     \<lparr> leads = ls, filteredLeads = ls, searchTerm_leads = '''', statusFilter_leads = ''all'',
       ownerFilter = ''all'', currentPage = p, itemsPerPage = 50, sortField = None,
       sortDirection_leads = Asc, selectedLeads = [] \<rparr>"

definition meetingsPage_of :: "meeting list \<Rightarrow> string list \<Rightarrow> meetingsPage" where
  "meetingsPage_of ms sel =
     \<lparr> meetings = ms, filteredMeetings = ms, loading = False, searchTerm = '''',
       selectedMeetings = sel, statusFilter = ''all'', organizerFilter = ''all'',
       sortColumn = None, sortDirection = Asc, toasts = [] \<rparr>"

text \<open>The columns the sort callback of the Meetings page names, and the fields of a lead.\<close>

definition meeting_columns :: "string list" where
  "meeting_columns = [''subject'', ''date'', ''time'', ''lead_contact'', ''status'']"

definition lead_fields :: "string list" where
  "lead_fields =
     [''id'', ''lead_name'', ''company_name'', ''account_company_name'', ''account_id'',
      ''position'', ''email'', ''phone_no'', ''contact_owner'', ''created_time'',
      ''modified_time'', ''lead_status'', ''contact_source'', ''linkedin'', ''website'',
      ''description'', ''created_by'', ''modified_by'']"

section \<open>Auxiliary facts\<close>

subsection \<open>Substrings\<close>

lemma str_includes_sublist: "str_includes s t \<longleftrightarrow> sublist t s"
  by (induction s) (auto simp: sublist_Cons_right)

subsection \<open>Sorting\<close>

lemma array_sort_noop:
  "(\<And>a b. a \<in> set xs \<Longrightarrow> b \<in> set xs \<Longrightarrow> cmp a b \<le> 0) \<Longrightarrow> array_sort cmp xs = xs"
proof (induction xs)
  case Nil
  show ?case by simp
next
  case (Cons x xs)
  have "array_sort cmp xs = xs" using Cons by simp
  moreover have "insert_by cmp x xs = x # xs"
    using Cons.prems by (cases xs) auto
  ultimately show ?case by simp
qed

subsection \<open>Slices and pages\<close>

lemma slice_index_diff: "0 \<le> n \<Longrightarrow> slice_index len (s + n) - slice_index len s \<le> nat n"
  unfolding slice_index_def by (cases "s < 0"; cases "s + n < 0") auto

lemma length_slice_le: "0 \<le> n \<Longrightarrow> length (slice xs s (s + n)) \<le> nat n"
  using slice_index_diff [of n "length xs" s] by (simp add: slice_def Let_def)

lemma slice_nonneg:
  assumes "0 \<le> s" and "0 \<le> n"
  shows "slice xs s (s + n) = take (nat n) (drop (nat s) xs)"
proof (cases "nat s + nat n \<le> length xs")
  case True
  with assms show ?thesis
    by (simp add: slice_def slice_index_def Let_def nat_add_distrib)
next
  case False
  with assms show ?thesis
    by (cases "nat s \<le> length xs") (simp_all add: slice_def slice_index_def Let_def nat_add_distrib)
qed

lemma slice_0_50: "length xs \<le> 50 \<Longrightarrow> slice xs 0 50 = xs"
  by (simp add: slice_def slice_index_def)

lemma chunks_concat:
  "concat (map (\<lambda>k. take ps (drop (k * ps) xs)) [0..<n]) = take (n * ps) xs"
proof (induction n)
  case 0
  show ?case by simp
next
  case (Suc n)
  have "Suc n * ps = n * ps + ps" by simp
  then have "take (Suc n * ps) xs = take (n * ps) xs @ take ps (drop (n * ps) xs)"
    by (simp only: take_add)
  with Suc show ?case by simp
qed

lemma take_drop_nth:
  "take n (drop k xs) = map (\<lambda>i. xs ! i) [k ..< min (k + n) (length xs)]"
proof (rule nth_equalityI)
  show "length (take n (drop k xs)) = length (map (\<lambda>i. xs ! i) [k ..< min (k + n) (length xs)])"
    by auto
next
  fix i
  assume "i < length (take n (drop k xs))"
  then have "i < n" and "k + i < length xs" by auto
  then show "take n (drop k xs) ! i = map (\<lambda>i. xs ! i) [k ..< min (k + n) (length xs)] ! i"
    by simp
qed

lemma ceiling_pages:
  fixes len :: nat and ps :: int
  assumes "0 < ps"
  shows "len \<le> nat \<lceil>real len / real_of_int ps\<rceil> * nat ps"
proof -
  let ?c = "\<lceil>real len / real_of_int ps\<rceil>"
  have "real len / real_of_int ps \<le> real_of_int ?c"
    by (rule le_of_int_ceiling)
  moreover have "0 < real_of_int ps" using assms by simp
  ultimately have "real len \<le> real_of_int ?c * real_of_int ps"
    by (simp only: pos_divide_le_eq)
  then have "real_of_int (int len) \<le> real_of_int (?c * ps)"
    by simp
  then have *: "int len \<le> ?c * ps"
    by (simp only: of_int_le_iff)
  have "0 \<le> real len / real_of_int ps" using assms by simp
  then have c0: "0 \<le> ?c" by (simp only: zero_le_ceiling)
  have "len = nat (int len)" by simp
  also have "\<dots> \<le> nat (?c * ps)" using * by (rule nat_mono)
  also have "\<dots> = nat ?c * nat ps" using c0 by (rule nat_mult_distrib)
  finally show ?thesis .
qed

subsection \<open>Comparators\<close>

lemmas lower_eval = toLowerCase_def toLowerChar_def char_of_def bit_Suc_0_iff



lemma meetingCompare_unknown:
  "c \<notin> set meeting_columns \<Longrightarrow> meetingCompare tz now c dir a b = 0"
  by (simp add: meeting_columns_def meetingCompare_def compare_values_def)

lemma lead_field_unknown: "f \<notin> set lead_fields \<Longrightarrow> lead_field f l = None"
  by (simp add: lead_fields_def lead_field_def)

lemma leadCompare_absent:
  "or_empty (lead_field f a) = [] \<Longrightarrow> or_empty (lead_field f b) = [] \<Longrightarrow> leadCompare f dir a b = 0"
  by (simp add: leadCompare_def localeCompare_def)

subsection \<open>Filter steps\<close>

lemma statusStep_filter:
  "statusStep s ls = filter (\<lambda>l. s = ''all'' \<or> l_lead_status l = Some s) ls"
  by (simp add: statusStep_def)

lemma ownerStep_filter:
  "ownerStep ow ls = filter (\<lambda>l. ow = ''all'' \<or> l_created_by l = Some ow) ls"
  by (simp add: ownerStep_def)

lemmas step_filters = searchStep_def statusStep_filter ownerStep_filter

subsection \<open>Pages of the Leads table\<close>

lemma page_take_drop:
  assumes "1 \<le> p" and "0 \<le> itemsPerPage st"
  shows "getCurrentPageLeads (st\<lparr>currentPage := p\<rparr>) =
           take (nat (itemsPerPage st)) (drop (nat (p - 1) * nat (itemsPerPage st)) (filteredLeads st))"
proof -
  have "0 \<le> (p - 1) * itemsPerPage st" using assms by simp
  then show ?thesis
    using assms by (simp add: getCurrentPageLeads_def slice_nonneg nat_mult_distrib)
qed

lemma pages_concat:
  assumes "0 < itemsPerPage st"
  shows "concat (map (\<lambda>p. getCurrentPageLeads (st\<lparr>currentPage := int p\<rparr>))
           [1 ..< Suc (nat (totalPages st))]) = filteredLeads st"
proof -
  let ?ps = "nat (itemsPerPage st)" and ?xs = "filteredLeads st" and ?n = "nat (totalPages st)"
  have "map (\<lambda>p. getCurrentPageLeads (st\<lparr>currentPage := int p\<rparr>)) [1 ..< Suc ?n]
        = map (\<lambda>p. getCurrentPageLeads (st\<lparr>currentPage := int p\<rparr>)) (map Suc [0 ..< ?n])"
    by (simp only: map_Suc_upt One_nat_def)
  also have "\<dots> = map (\<lambda>k. take ?ps (drop (k * ?ps) ?xs)) [0 ..< ?n]"
    using assms by (simp add: page_take_drop)
  finally have "concat (map (\<lambda>p. getCurrentPageLeads (st\<lparr>currentPage := int p\<rparr>)) [1 ..< Suc ?n])
        = take (?n * ?ps) ?xs"
    by (simp only: chunks_concat)
  moreover have "length ?xs \<le> ?n * ?ps"
    using ceiling_pages [OF assms, of "length ?xs"] by (simp add: totalPages_def)
  ultimately show ?thesis by simp
qed

lemma currentPage_filterEffect: "currentPage (filterEffect st) = 1"
  by (simp add: filterEffect_def Let_def)

section \<open>Effective status\<close>



section \<open>Selection\<close>

text \<open>
  C2 (amended). In the paginated Leads table with \<open>pageSize\<close> 50, toggling the header
  checkbox on replaces the prior selection with exactly the record ids of the current page,
  at most 50 of them: the ids at the indices from \<open>(page-1)*50\<close> up to \<open>page*50\<close>. With 73
  filtered leads on page 1 it selects exactly the first 50 ids. The Meetings page has no
  pagination: there the header checkbox selects the ids of all filtered meetings.
\<close>

theorem C2_select_all_current_page:
  "(itemsPerPage st = 50 \<longrightarrow>
      selectedLeads (handleSelectAll True st) = map l_id (getCurrentPageLeads st)
      \<and> length (selectedLeads (handleSelectAll True st)) \<le> 50)
   \<and> (itemsPerPage st = 50 \<and> 1 \<le> currentPage st \<longrightarrow>
      selectedLeads (handleSelectAll True st) =
        map l_id (take 50 (drop (nat (currentPage st - 1) * 50) (filteredLeads st))))
   \<and> (itemsPerPage st = 50 \<and> currentPage st = 1 \<and> length (filteredLeads st) = 73 \<longrightarrow>
      selectedLeads (handleSelectAll True st) = map l_id (take 50 (filteredLeads st))
      \<and> length (selectedLeads (handleSelectAll True st)) = 50)
   \<and> selectedMeetings (handleSelectAll_meetings True mp) = map m_id (filteredMeetings mp)"
proof -
  have len: "length (getCurrentPageLeads st) \<le> 50" if "itemsPerPage st = 50"
    using that length_slice_le [of 50 "filteredLeads st" "(currentPage st - 1) * 50"]
    by (simp add: getCurrentPageLeads_def)
  have sel: "selectedLeads (handleSelectAll True st) = map l_id (getCurrentPageLeads st)"
    if "itemsPerPage st = 50"
    using len [OF that] by (simp add: handleSelectAll_def slice_0_50)
  have page: "getCurrentPageLeads st = take 50 (drop (nat (currentPage st - 1) * 50) (filteredLeads st))"
    if "itemsPerPage st = 50" and "1 \<le> currentPage st"
  proof -
    have "0 \<le> (currentPage st - 1) * 50" using that by simp
    moreover have "nat ((currentPage st - 1) * 50) = nat (currentPage st - 1) * 50"
      by (simp add: nat_mult_distrib)
    ultimately show ?thesis
      using that slice_nonneg [of "(currentPage st - 1) * 50" 50 "filteredLeads st"]
      by (simp add: getCurrentPageLeads_def)
  qed
  have first: "selectedLeads (handleSelectAll True st) = map l_id (take 50 (filteredLeads st))
      \<and> length (selectedLeads (handleSelectAll True st)) = 50"
    if "itemsPerPage st = 50" and "currentPage st = 1" and "length (filteredLeads st) = 73"
    using that sel page by simp
  have mt: "selectedMeetings (handleSelectAll_meetings True mp) = map m_id (filteredMeetings mp)"
    by (simp add: handleSelectAll_meetings_def)
  from len sel page first mt show ?thesis by simp
qed

text \<open>73 leads, page 1 of the Leads table: 50 ids are selected, those of the first 50 leads.\<close>

theorem C2_select_all_current_page_witness:
  "itemsPerPage (leadTable_of (map lead_no [0..<73]) 1) = 50
   \<and> currentPage (leadTable_of (map lead_no [0..<73]) 1) = 1
   \<and> length (filteredLeads (leadTable_of (map lead_no [0..<73]) 1)) = 73
   \<and> length (selectedLeads (handleSelectAll True (leadTable_of (map lead_no [0..<73]) 1))) = 50
   \<and> selectedLeads (handleSelectAll True (leadTable_of (map lead_no [0..<73]) 1))
      = map l_id (take 50 (filteredLeads (leadTable_of (map lead_no [0..<73]) 1)))"
proof -
  have h: "itemsPerPage (leadTable_of (map lead_no [0..<73]) 1) = 50
      \<and> currentPage (leadTable_of (map lead_no [0..<73]) 1) = 1
      \<and> length (filteredLeads (leadTable_of (map lead_no [0..<73]) 1)) = 73"
    by (simp add: leadTable_of_def)
  with C2_select_all_current_page [of "leadTable_of (map lead_no [0..<73]) 1"] show ?thesis
    by blast
qed

text \<open>
  C2 as stated fails on the Meetings page: with 73 filtered meetings the header checkbox
  selects all 73 ids, not 50.
\<close>

theorem C2_meetings_counterexample:
  "length (filteredMeetings (meetingsPage_of (map meeting_no [0..<73]) [])) = 73
   \<and> length (selectedMeetings
        (handleSelectAll_meetings True (meetingsPage_of (map meeting_no [0..<73]) []))) = 73"
  by (simp add: handleSelectAll_meetings_def meetingsPage_of_def)

text \<open>
  C5 (amended). Toggling a row checkbox on appends exactly that one id to the selection,
  whether or not it is already there, and toggling it off removes that id and no other. As
  a set, the selection gains exactly that id, or loses exactly that id. A selection
  without duplicates stays without duplicates when the id toggled on was not selected
  before, which is how a click on the checkbox calls the handler.
\<close>

theorem C5_toggle_one_id:
  "selectedLeads (handleSelectLead i True st) = selectedLeads st @ [i]
   \<and> selectedLeads (handleSelectLead i False st) = filter (\<lambda>j. j \<noteq> i) (selectedLeads st)
   \<and> set (selectedLeads (handleSelectLead i True st)) = insert i (set (selectedLeads st))
   \<and> set (selectedLeads (handleSelectLead i False st)) = set (selectedLeads st) - {i}
   \<and> (distinct (selectedLeads st) \<and> i \<notin> set (selectedLeads st) \<longrightarrow>
        distinct (selectedLeads (handleSelectLead i True st)))
   \<and> (distinct (selectedLeads st) \<longrightarrow> distinct (selectedLeads (handleSelectLead i False st)))
   \<and> (distinct (selectedLeads st) \<longrightarrow> distinct (selectedLeads (clickLeadCheckbox i st)))
   \<and> selectedMeetings (handleSelectMeeting i True mp) = selectedMeetings mp @ [i]
   \<and> selectedMeetings (handleSelectMeeting i False mp)
        = filter (\<lambda>j. j \<noteq> i) (selectedMeetings mp)
   \<and> set (selectedMeetings (handleSelectMeeting i True mp)) = insert i (set (selectedMeetings mp))
   \<and> set (selectedMeetings (handleSelectMeeting i False mp)) = set (selectedMeetings mp) - {i}
   \<and> (distinct (selectedMeetings mp) \<and> i \<notin> set (selectedMeetings mp) \<longrightarrow>
        distinct (selectedMeetings (handleSelectMeeting i True mp)))
   \<and> (distinct (selectedMeetings mp) \<longrightarrow>
        distinct (selectedMeetings (handleSelectMeeting i False mp)))
   \<and> (distinct (selectedMeetings mp) \<longrightarrow> distinct (selectedMeetings (clickMeetingCheckbox i mp)))"
  by (auto simp add: handleSelectLead_def handleSelectMeeting_def clickLeadCheckbox_def
      clickMeetingCheckbox_def)

text \<open>With \<open>a\<close> selected, toggling \<open>b\<close> on gives \<open>a, b\<close>, and toggling \<open>a\<close> off gives nothing.\<close>

theorem C5_toggle_one_id_witness:
  "distinct (selectedMeetings (meetingsPage_of [] [''a'']))
   \<and> ''b'' \<notin> set (selectedMeetings (meetingsPage_of [] [''a'']))
   \<and> distinct (selectedMeetings (handleSelectMeeting ''b'' True (meetingsPage_of [] [''a''])))
   \<and> selectedMeetings (handleSelectMeeting ''b'' True (meetingsPage_of [] [''a''])) = [''a'', ''b'']
   \<and> selectedMeetings (handleSelectMeeting ''a'' False (meetingsPage_of [] [''a''])) = []
   \<and> distinct (selectedLeads (leadTable_of [] 1))
   \<and> ''b'' \<notin> set (selectedLeads (leadTable_of [] 1))
   \<and> selectedLeads (handleSelectLead ''b'' True (leadTable_of [] 1)) = [''b'']
   \<and> distinct (selectedLeads (clickLeadCheckbox ''b'' (leadTable_of [] 1)))"
proof -
  have h: "distinct (selectedMeetings (meetingsPage_of [] [''a'']))
      \<and> ''b'' \<notin> set (selectedMeetings (meetingsPage_of [] [''a'']))
      \<and> selectedMeetings (meetingsPage_of [] [''a'']) = [''a'']
      \<and> distinct (selectedLeads (leadTable_of [] 1))
      \<and> ''b'' \<notin> set (selectedLeads (leadTable_of [] 1))
      \<and> selectedLeads (leadTable_of [] 1) = []"
    by (simp add: meetingsPage_of_def leadTable_of_def)
  with C5_toggle_one_id [of "''b''" "leadTable_of [] 1" "meetingsPage_of [] [''a'']"]
    C5_toggle_one_id [of "''a''" "leadTable_of [] 1" "meetingsPage_of [] [''a'']"]
  show ?thesis by simp
qed

text \<open>
  C5 as stated fails: the handler does not look for the id before it appends it. Called
  with \<open>true\<close> for an id that is already selected, it leaves the id in the selection twice.
\<close>

theorem C5_duplicate_counterexample:
  "selectedLeads (handleSelectLead ''a'' True ((leadTable_of [] 1)\<lparr>selectedLeads := [''a'']\<rparr>))
     = [''a'', ''a'']
   \<and> \<not> distinct (selectedLeads
         (handleSelectLead ''a'' True ((leadTable_of [] 1)\<lparr>selectedLeads := [''a'']\<rparr>)))
   \<and> selectedMeetings (handleSelectMeeting ''a'' True (meetingsPage_of [] [''a'']))
     = [''a'', ''a'']"
  by (simp add: handleSelectLead_def handleSelectMeeting_def leadTable_of_def meetingsPage_of_def)

section \<open>Search and filters\<close>

text \<open>
  C3 (amended). The search step passes a record if and only if at least one of the
  module's searchable text fields (subject, lead name and contact name of a meeting; lead
  name, company name and email of a lead) is present and, lower-cased, contains the
  lower-cased search term as a substring. A missing or null field never matches and never
  throws. That is the same as treating it as the empty string whenever the search term is
  not empty or one of the searchable fields is present; the empty search term passes every
  record with at least one searchable field present, and no search term passes a record
  whose searchable fields are all missing.
\<close>

theorem C3_search_step:
  "(matchesSearch q m \<longleftrightarrow>
      (\<exists>v. m_subject m = Some v \<and> sublist (toLowerCase q) (toLowerCase v))
      \<or> (\<exists>v. m_lead_name m = Some v \<and> sublist (toLowerCase q) (toLowerCase v))
      \<or> (\<exists>v. m_contact_name m = Some v \<and> sublist (toLowerCase q) (toLowerCase v)))
   \<and> (q \<noteq> [] \<or> m_subject m \<noteq> None \<or> m_lead_name m \<noteq> None \<or> m_contact_name m \<noteq> None \<longrightarrow>
        (matchesSearch q m \<longleftrightarrow>
           sublist (toLowerCase q) (toLowerCase (or_empty (m_subject m)))
           \<or> sublist (toLowerCase q) (toLowerCase (or_empty (m_lead_name m)))
           \<or> sublist (toLowerCase q) (toLowerCase (or_empty (m_contact_name m)))))
   \<and> (m_subject m \<noteq> None \<or> m_lead_name m \<noteq> None \<or> m_contact_name m \<noteq> None \<longrightarrow>
        matchesSearch '''' m)
   \<and> (m_subject m = None \<and> m_lead_name m = None \<and> m_contact_name m = None \<longrightarrow>
        \<not> matchesSearch q m)
   \<and> (matchesSearch_lead q l \<longleftrightarrow>
      (\<exists>v. l_lead_name l = Some v \<and> sublist (toLowerCase q) (toLowerCase v))
      \<or> (\<exists>v. l_company_name l = Some v \<and> sublist (toLowerCase q) (toLowerCase v))
      \<or> (\<exists>v. l_email l = Some v \<and> sublist (toLowerCase q) (toLowerCase v)))
   \<and> (q \<noteq> [] \<or> l_lead_name l \<noteq> None \<or> l_company_name l \<noteq> None \<or> l_email l \<noteq> None \<longrightarrow>
        (matchesSearch_lead q l \<longleftrightarrow>
           sublist (toLowerCase q) (toLowerCase (or_empty (l_lead_name l)))
           \<or> sublist (toLowerCase q) (toLowerCase (or_empty (l_company_name l)))
           \<or> sublist (toLowerCase q) (toLowerCase (or_empty (l_email l)))))
   \<and> (l_lead_name l \<noteq> None \<or> l_company_name l \<noteq> None \<or> l_email l \<noteq> None \<longrightarrow>
        matchesSearch_lead '''' l)
   \<and> (l_lead_name l = None \<and> l_company_name l = None \<and> l_email l = None \<longrightarrow>
        \<not> matchesSearch_lead q l)"
proof -
  have present: "opt_includes x q \<longleftrightarrow> (\<exists>v. x = Some v \<and> sublist (toLowerCase q) (toLowerCase v))"
    for x
    by (cases x) (simp_all add: opt_includes_def str_includes_sublist)
  have empty: "opt_includes x []" if "x \<noteq> None" for x
    using that by (cases x) (simp_all add: opt_includes_def str_includes_sublist toLowerCase_def)
  have coerce: "opt_includes x q \<longleftrightarrow> sublist (toLowerCase q) (toLowerCase (or_empty x))"
    if "q \<noteq> [] \<or> x \<noteq> None" for x
    using that
    by (cases x) (simp_all add: opt_includes_def or_empty_def str_includes_sublist toLowerCase_def)
  have m1: "matchesSearch q m \<longleftrightarrow>
      (\<exists>v. m_subject m = Some v \<and> sublist (toLowerCase q) (toLowerCase v))
      \<or> (\<exists>v. m_lead_name m = Some v \<and> sublist (toLowerCase q) (toLowerCase v))
      \<or> (\<exists>v. m_contact_name m = Some v \<and> sublist (toLowerCase q) (toLowerCase v))"
    by (simp only: matchesSearch_def present)
  have m2: "matchesSearch q m \<longleftrightarrow>
           sublist (toLowerCase q) (toLowerCase (or_empty (m_subject m)))
           \<or> sublist (toLowerCase q) (toLowerCase (or_empty (m_lead_name m)))
           \<or> sublist (toLowerCase q) (toLowerCase (or_empty (m_contact_name m)))"
    if "q \<noteq> [] \<or> m_subject m \<noteq> None \<or> m_lead_name m \<noteq> None \<or> m_contact_name m \<noteq> None"
  proof (cases "q = []")
    case True
    with that have "matchesSearch q m"
      by (auto simp: matchesSearch_def intro: empty)
    moreover have "sublist (toLowerCase q) (toLowerCase (or_empty (m_subject m)))"
      using True by (simp add: toLowerCase_def)
    ultimately show ?thesis by simp
  next
    case False
    then show ?thesis by (simp add: matchesSearch_def coerce)
  qed
  have m3: "matchesSearch [] m"
    if "m_subject m \<noteq> None \<or> m_lead_name m \<noteq> None \<or> m_contact_name m \<noteq> None"
    using that by (auto simp: matchesSearch_def intro: empty)
  have m4: "\<not> matchesSearch q m"
    if "m_subject m = None \<and> m_lead_name m = None \<and> m_contact_name m = None"
    using that by (simp add: matchesSearch_def opt_includes_def)
  have l1: "matchesSearch_lead q l \<longleftrightarrow>
      (\<exists>v. l_lead_name l = Some v \<and> sublist (toLowerCase q) (toLowerCase v))
      \<or> (\<exists>v. l_company_name l = Some v \<and> sublist (toLowerCase q) (toLowerCase v))
      \<or> (\<exists>v. l_email l = Some v \<and> sublist (toLowerCase q) (toLowerCase v))"
    by (simp only: matchesSearch_lead_def present)
  have l2: "matchesSearch_lead q l \<longleftrightarrow>
           sublist (toLowerCase q) (toLowerCase (or_empty (l_lead_name l)))
           \<or> sublist (toLowerCase q) (toLowerCase (or_empty (l_company_name l)))
           \<or> sublist (toLowerCase q) (toLowerCase (or_empty (l_email l)))"
    if "q \<noteq> [] \<or> l_lead_name l \<noteq> None \<or> l_company_name l \<noteq> None \<or> l_email l \<noteq> None"
  proof (cases "q = []")
    case True
    with that have "matchesSearch_lead q l"
      by (auto simp: matchesSearch_lead_def intro: empty)
    moreover have "sublist (toLowerCase q) (toLowerCase (or_empty (l_lead_name l)))"
      using True by (simp add: toLowerCase_def)
    ultimately show ?thesis by simp
  next
    case False
    then show ?thesis by (simp add: matchesSearch_lead_def coerce)
  qed
  have l3: "matchesSearch_lead [] l"
    if "l_lead_name l \<noteq> None \<or> l_company_name l \<noteq> None \<or> l_email l \<noteq> None"
    using that by (auto simp: matchesSearch_lead_def intro: empty)
  have l4: "\<not> matchesSearch_lead q l"
    if "l_lead_name l = None \<and> l_company_name l = None \<and> l_email l = None"
    using that by (simp add: matchesSearch_lead_def opt_includes_def)
  from m1 m2 m3 m4 l1 l2 l3 l4 show ?thesis
    by (intro conjI impI) (assumption | simp only:)+
qed

text \<open>
  The specification's scenario: the term \<open>acme\<close> matches the lead named \<open>ACME Corp\<close>, whose
  other fields are missing, and so does the empty term; a meeting with a subject passes the
  empty term.
\<close>

theorem C3_search_step_witness:
  "''acme'' \<noteq> ''''
   \<and> l_lead_name (mk_lead ''1'' ''ACME Corp'' None) \<noteq> None
   \<and> m_subject (mk_meeting ''m1'' ''Demo'' ''scheduled'' 10 20) \<noteq> None
   \<and> matchesSearch_lead ''acme'' (mk_lead ''1'' ''ACME Corp'' None)
   \<and> matchesSearch_lead '''' (mk_lead ''1'' ''ACME Corp'' None)
   \<and> matchesSearch '''' (mk_meeting ''m1'' ''Demo'' ''scheduled'' 10 20)
   \<and> \<not> matchesSearch ''demo'' ((mk_meeting ''m1'' ''Demo'' ''scheduled'' 10 20)
        \<lparr>m_subject := None\<rparr>)"
proof -
  let ?l = "mk_lead ''1'' ''ACME Corp'' None"
  let ?m = "mk_meeting ''m1'' ''Demo'' ''scheduled'' 10 20"
  let ?n = "(mk_meeting ''m1'' ''Demo'' ''scheduled'' 10 20)\<lparr>m_subject := None\<rparr>"
  have h1: "l_lead_name ?l \<noteq> None" and h2: "m_subject ?m \<noteq> None"
    and h3: "m_subject ?n = None \<and> m_lead_name ?n = None \<and> m_contact_name ?n = None"
    by (simp_all add: mk_lead_def mk_meeting_def)
  have h4: "sublist (toLowerCase ''acme'') (toLowerCase (or_empty (l_lead_name ?l)))"
    by (simp add: mk_lead_def or_empty_def lower_eval str_includes_sublist [symmetric])
  have h5: "''acme'' \<noteq> ''''" by simp
  note a = C3_search_step [where q = "''acme''" and l = ?l and m = ?m]
  note b = C3_search_step [where q = "''demo''" and m = ?n]
  note a3 = a [THEN conjunct2, THEN conjunct2, THEN conjunct1]
  note b4 = b [THEN conjunct2, THEN conjunct2, THEN conjunct2, THEN conjunct1]
  note a6 = a [THEN conjunct2, THEN conjunct2, THEN conjunct2, THEN conjunct2, THEN conjunct2,
    THEN conjunct1]
  note a7 = a [THEN conjunct2, THEN conjunct2, THEN conjunct2, THEN conjunct2, THEN conjunct2,
    THEN conjunct2, THEN conjunct1]
  from a6 h5 h4 have w1: "matchesSearch_lead ''acme'' ?l" by blast
  from a7 h1 have w2: "matchesSearch_lead [] ?l" by blast
  from a3 h2 have w3: "matchesSearch [] ?m" by blast
  from b4 h3 have w4: "\<not> matchesSearch ''demo'' ?n" by blast
  from h5 h1 h2 w1 w2 w3 w4 show ?thesis by (intro conjI)
qed

text \<open>
  C3 as stated fails for a record whose searchable fields are all missing: the claim
  treats them as the empty string, which contains the empty search term, and lets the
  empty term pass every record; the code drops the record.
\<close>

theorem C3_missing_fields_counterexample:
  "sublist (toLowerCase '''')
     (toLowerCase (or_empty (m_subject ((mk_meeting ''m1'' ''Demo'' ''scheduled'' 10 20)
        \<lparr>m_subject := None\<rparr>))))
   \<and> \<not> matchesSearch '''' ((mk_meeting ''m1'' ''Demo'' ''scheduled'' 10 20)\<lparr>m_subject := None\<rparr>)
   \<and> sublist (toLowerCase '''')
     (toLowerCase (or_empty (l_lead_name ((mk_lead ''1'' ''ACME Corp'' None)
        \<lparr>l_lead_name := None\<rparr>))))
   \<and> \<not> matchesSearch_lead '''' ((mk_lead ''1'' ''ACME Corp'' None)\<lparr>l_lead_name := None\<rparr>)"
  by (simp add: matchesSearch_def matchesSearch_lead_def opt_includes_def mk_meeting_def
      mk_lead_def or_empty_def toLowerCase_def)

text \<open>
  C4. A filter value \<open>all\<close> passes every meeting. For any other filter value a meeting
  passes the status filter if and only if its effective status, the resolver's output,
  equals the filter value. The stored status is not compared: two meetings with the same
  effective status get the same answer from the filter, whatever their stored statuses
  are.
\<close>

theorem C4_status_filter_effective:
  "matchesStatus now ''all'' m
   \<and> (sf \<noteq> ''all'' \<longrightarrow> (matchesStatus now sf m \<longleftrightarrow> getEffectiveStatus now m = sf))
   \<and> (getEffectiveStatus now m = getEffectiveStatus now m' \<longrightarrow>
        matchesStatus now sf m = matchesStatus now sf m')"
  by (simp add: matchesStatus_def)

text \<open>
  At \<open>now = 30\<close> a meeting stored as \<open>scheduled\<close> that ended at 20 passes the filter
  \<open>completed\<close> and fails the filter \<open>scheduled\<close>, as does one stored as \<open>ongoing\<close>.
\<close>

theorem C4_status_filter_effective_witness:
  "m_status (mk_meeting ''m1'' ''Demo'' ''scheduled'' 10 20) = ''scheduled''
   \<and> matchesStatus 30 ''completed'' (mk_meeting ''m1'' ''Demo'' ''scheduled'' 10 20)
   \<and> \<not> matchesStatus 30 ''scheduled'' (mk_meeting ''m1'' ''Demo'' ''scheduled'' 10 20)
   \<and> matchesStatus 30 ''completed'' (mk_meeting ''m2'' ''Call'' ''ongoing'' 0 5)"
proof -
  have e1: "getEffectiveStatus 30 (mk_meeting ''m1'' ''Demo'' ''scheduled'' 10 20) = ''completed''"
    by (simp add: getEffectiveStatus_def getMeetingStatus_def mk_meeting_def)
  have e2: "getEffectiveStatus 30 (mk_meeting ''m2'' ''Call'' ''ongoing'' 0 5) = ''completed''"
    by (simp add: getEffectiveStatus_def getMeetingStatus_def mk_meeting_def)
  have n1: "''completed'' \<noteq> ''all''" and n2: "''scheduled'' \<noteq> ''all''"
    and n3: "''completed'' \<noteq> ''scheduled''" by simp_all
  have s: "m_status (mk_meeting ''m1'' ''Demo'' ''scheduled'' 10 20) = ''scheduled''"
    by (simp add: mk_meeting_def)
  from e1 e2 n1 n2 n3 s
    C4_status_filter_effective [where now = 30 and sf = "''completed''"
      and m = "mk_meeting ''m1'' ''Demo'' ''scheduled'' 10 20"
      and m' = "mk_meeting ''m2'' ''Call'' ''ongoing'' 0 5"]
    C4_status_filter_effective [where now = 30 and sf = "''scheduled''"
      and m = "mk_meeting ''m1'' ''Demo'' ''scheduled'' 10 20"]
  show ?thesis by metis
qed

text \<open>
  C9. Applying the search, status and owner predicates together gives the same filtered
  list as applying the three one after the other in any of the six orders: for the Leads
  table, whose effect applies search, then status, then owner, and for the Meetings page,
  whose filter callback is the conjunction of the three.
\<close>

theorem C9_filter_order_irrelevant:
  "filterLeads q s ow ls =
     filter (\<lambda>l. matchesSearch_lead q l \<and> (s = ''all'' \<or> l_lead_status l = Some s)
                  \<and> (ow = ''all'' \<or> l_created_by l = Some ow)) ls
   \<and> filterLeads q s ow ls = ownerStep ow (searchStep q (statusStep s ls))
   \<and> filterLeads q s ow ls = statusStep s (ownerStep ow (searchStep q ls))
   \<and> filterLeads q s ow ls = statusStep s (searchStep q (ownerStep ow ls))
   \<and> filterLeads q s ow ls = searchStep q (statusStep s (ownerStep ow ls))
   \<and> filterLeads q s ow ls = searchStep q (ownerStep ow (statusStep s ls))
   \<and> filterMeetings now q s ow ms =
       filter (matchesOrganizer ow) (filter (matchesStatus now s) (filter (matchesSearch q) ms))
   \<and> filterMeetings now q s ow ms =
       filter (matchesOrganizer ow) (filter (matchesSearch q) (filter (matchesStatus now s) ms))
   \<and> filterMeetings now q s ow ms =
       filter (matchesStatus now s) (filter (matchesOrganizer ow) (filter (matchesSearch q) ms))
   \<and> filterMeetings now q s ow ms =
       filter (matchesStatus now s) (filter (matchesSearch q) (filter (matchesOrganizer ow) ms))
   \<and> filterMeetings now q s ow ms =
       filter (matchesSearch q) (filter (matchesStatus now s) (filter (matchesOrganizer ow) ms))
   \<and> filterMeetings now q s ow ms =
       filter (matchesSearch q) (filter (matchesOrganizer ow) (filter (matchesStatus now s) ms))"
proof -
  have l0: "filterLeads q s ow ls =
     filter (\<lambda>l. matchesSearch_lead q l \<and> (s = ''all'' \<or> l_lead_status l = Some s)
                  \<and> (ow = ''all'' \<or> l_created_by l = Some ow)) ls"
    unfolding filterLeads_def step_filters filter_filter by (rule filter_cong) auto
  have l1: "filterLeads q s ow ls = ownerStep ow (searchStep q (statusStep s ls))"
    unfolding filterLeads_def step_filters filter_filter by (rule filter_cong) auto
  have l2: "filterLeads q s ow ls = statusStep s (ownerStep ow (searchStep q ls))"
    unfolding filterLeads_def step_filters filter_filter by (rule filter_cong) auto
  have l3: "filterLeads q s ow ls = statusStep s (searchStep q (ownerStep ow ls))"
    unfolding filterLeads_def step_filters filter_filter by (rule filter_cong) auto
  have l4: "filterLeads q s ow ls = searchStep q (statusStep s (ownerStep ow ls))"
    unfolding filterLeads_def step_filters filter_filter by (rule filter_cong) auto
  have l5: "filterLeads q s ow ls = searchStep q (ownerStep ow (statusStep s ls))"
    unfolding filterLeads_def step_filters filter_filter by (rule filter_cong) auto
  have m0: "filterMeetings now q s ow ms =
       filter (matchesOrganizer ow) (filter (matchesStatus now s) (filter (matchesSearch q) ms))"
    unfolding filterMeetings_def filter_filter by (rule filter_cong) auto
  have m1: "filterMeetings now q s ow ms =
       filter (matchesOrganizer ow) (filter (matchesSearch q) (filter (matchesStatus now s) ms))"
    unfolding filterMeetings_def filter_filter by (rule filter_cong) auto
  have m2: "filterMeetings now q s ow ms =
       filter (matchesStatus now s) (filter (matchesOrganizer ow) (filter (matchesSearch q) ms))"
    unfolding filterMeetings_def filter_filter by (rule filter_cong) auto
  have m3: "filterMeetings now q s ow ms =
       filter (matchesStatus now s) (filter (matchesSearch q) (filter (matchesOrganizer ow) ms))"
    unfolding filterMeetings_def filter_filter by (rule filter_cong) auto
  have m4: "filterMeetings now q s ow ms =
       filter (matchesSearch q) (filter (matchesStatus now s) (filter (matchesOrganizer ow) ms))"
    unfolding filterMeetings_def filter_filter by (rule filter_cong) auto
  have m5: "filterMeetings now q s ow ms =
       filter (matchesSearch q) (filter (matchesOrganizer ow) (filter (matchesStatus now s) ms))"
    unfolding filterMeetings_def filter_filter by (rule filter_cong) auto
  from l0 l1 l2 l3 l4 l5 m0 m1 m2 m3 m4 m5 show ?thesis
    by (intro conjI)
qed

section \<open>Pagination\<close>

text \<open>
  C6. For a page number from 1 on and a page size that is not negative, the visible slice
  of the Leads table is the list of the elements at the indices from \<open>(page-1)*pageSize\<close> up
  to but excluding \<open>page*pageSize\<close>, as far as the filtered list reaches. Every slice has at
  most \<open>pageSize\<close> elements; for a positive page size the slices of the pages 1 to
  \<open>totalPages\<close>, put together, are the filtered list, so their lengths add up to the
  filtered count. A change of the search term, of the status or owner filter, or a click on
  a column header sets \<open>currentPage\<close> back to 1.
\<close>

theorem C6_pagination:
  "(1 \<le> currentPage st \<and> 0 \<le> itemsPerPage st \<longrightarrow>
      getCurrentPageLeads st =
        map (\<lambda>i. filteredLeads st ! i)
          [nat ((currentPage st - 1) * itemsPerPage st)
             ..< min (nat (currentPage st * itemsPerPage st)) (length (filteredLeads st))])
   \<and> (0 \<le> itemsPerPage st \<longrightarrow> length (getCurrentPageLeads st) \<le> nat (itemsPerPage st))
   \<and> (0 < itemsPerPage st \<longrightarrow>
        concat (map (\<lambda>p. getCurrentPageLeads (st\<lparr>currentPage := int p\<rparr>))
                  [1 ..< Suc (nat (totalPages st))]) = filteredLeads st
        \<and> sum_list (map (\<lambda>p. length (getCurrentPageLeads (st\<lparr>currentPage := int p\<rparr>)))
                  [1 ..< Suc (nat (totalPages st))]) = length (filteredLeads st))
   \<and> (v \<noteq> searchTerm_leads st \<longrightarrow> currentPage (setSearchTerm v st) = 1)
   \<and> (v \<noteq> statusFilter_leads st \<longrightarrow> currentPage (setStatusFilter v st) = 1)
   \<and> (v \<noteq> ownerFilter st \<longrightarrow> currentPage (setOwnerFilter v st) = 1)
   \<and> currentPage (handleSort f st) = 1"
proof -
  have slice_eq: "getCurrentPageLeads st =
        map (\<lambda>i. filteredLeads st ! i)
          [nat ((currentPage st - 1) * itemsPerPage st)
             ..< min (nat (currentPage st * itemsPerPage st)) (length (filteredLeads st))]"
    if "1 \<le> currentPage st" and "0 \<le> itemsPerPage st"
  proof -
    have s0: "0 \<le> (currentPage st - 1) * itemsPerPage st" using that by simp
    have "nat ((currentPage st - 1) * itemsPerPage st) + nat (itemsPerPage st)
            = nat (currentPage st * itemsPerPage st)"
      using s0 that by (simp add: nat_add_distrib[symmetric] algebra_simps)
    then show ?thesis
      using that s0 by (simp add: getCurrentPageLeads_def slice_nonneg take_drop_nth)
  qed
  have len: "length (getCurrentPageLeads st) \<le> nat (itemsPerPage st)" if "0 \<le> itemsPerPage st"
    using that by (simp add: getCurrentPageLeads_def Let_def length_slice_le)
  have cat: "concat (map (\<lambda>p. getCurrentPageLeads (st\<lparr>currentPage := int p\<rparr>))
                  [1 ..< Suc (nat (totalPages st))]) = filteredLeads st"
    if "0 < itemsPerPage st"
    using that by (rule pages_concat)
  have total: "sum_list (map (\<lambda>p. length (getCurrentPageLeads (st\<lparr>currentPage := int p\<rparr>)))
                  [1 ..< Suc (nat (totalPages st))]) = length (filteredLeads st)"
    if "0 < itemsPerPage st"
  proof -
    have "length (concat (map (\<lambda>p. getCurrentPageLeads (st\<lparr>currentPage := int p\<rparr>))
                  [1 ..< Suc (nat (totalPages st))])) = length (filteredLeads st)"
      using cat [OF that] by simp
    then show ?thesis by (simp only: length_concat map_map comp_def)
  qed
  have r1: "currentPage (setSearchTerm v st) = 1" if "v \<noteq> searchTerm_leads st"
    using that by (simp add: setSearchTerm_def currentPage_filterEffect)
  have r2: "currentPage (setStatusFilter v st) = 1" if "v \<noteq> statusFilter_leads st"
    using that by (simp add: setStatusFilter_def currentPage_filterEffect)
  have r3: "currentPage (setOwnerFilter v st) = 1" if "v \<noteq> ownerFilter st"
    using that by (simp add: setOwnerFilter_def currentPage_filterEffect)
  have r4: "currentPage (handleSort f st) = 1"
    by (simp add: handleSort_def currentPage_filterEffect)
  from slice_eq len cat total r1 r2 r3 r4 show ?thesis by blast
qed

text \<open>
  The specification's scenario: 120 leads, page size 50. Page 3 shows the 20 leads at the
  indices 100 to 119, and typing the search term \<open>acme\<close> on page 3 leads back to page 1.
\<close>

theorem C6_pagination_witness:
  "1 \<le> currentPage (leadTable_of (map lead_no [0..<120]) 3)
   \<and> 0 < itemsPerPage (leadTable_of (map lead_no [0..<120]) 3)
   \<and> ''acme'' \<noteq> searchTerm_leads (leadTable_of (map lead_no [0..<120]) 3)
   \<and> ''acme'' \<noteq> statusFilter_leads (leadTable_of (map lead_no [0..<120]) 3)
   \<and> ''acme'' \<noteq> ownerFilter (leadTable_of (map lead_no [0..<120]) 3)
   \<and> getCurrentPageLeads (leadTable_of (map lead_no [0..<120]) 3)
       = map (\<lambda>i. map lead_no [0..<120] ! i) [100 ..< 120]
   \<and> length (getCurrentPageLeads (leadTable_of (map lead_no [0..<120]) 3)) \<le> 50
   \<and> currentPage (setSearchTerm ''acme'' (leadTable_of (map lead_no [0..<120]) 3)) = 1
   \<and> currentPage (setStatusFilter ''acme'' (leadTable_of (map lead_no [0..<120]) 3)) = 1
   \<and> currentPage (setOwnerFilter ''acme'' (leadTable_of (map lead_no [0..<120]) 3)) = 1"
proof -
  have h: "currentPage (leadTable_of (map lead_no [0..<120]) 3) = 3
      \<and> itemsPerPage (leadTable_of (map lead_no [0..<120]) 3) = 50
      \<and> filteredLeads (leadTable_of (map lead_no [0..<120]) 3) = map lead_no [0..<120]
      \<and> searchTerm_leads (leadTable_of (map lead_no [0..<120]) 3) = ''''
      \<and> statusFilter_leads (leadTable_of (map lead_no [0..<120]) 3) = ''all''
      \<and> ownerFilter (leadTable_of (map lead_no [0..<120]) 3) = ''all''"
    by (simp add: leadTable_of_def)
  with C6_pagination [of "leadTable_of (map lead_no [0..<120]) 3" "''acme''"]
  show ?thesis by simp
qed

section \<open>Sorting\<close>




text \<open>
  C8. For a sort column that the comparator does not recognise (none of the five columns of
  the Meetings switch; no field of a lead), and for a lead field that is missing or empty
  in every record of the list, both sides of the comparison are the empty string: the
  comparator returns 0 for every pair, and sorting gives back the filtered list in the
  order it had. The model has no failing branch, as the source has none.
\<close>

theorem C8_unknown_column_noop:
  "(c \<notin> set meeting_columns \<longrightarrow>
      meetingCompare tz now c dir a b = 0
      \<and> array_sort (meetingCompare tz now c dir) ms = ms
      \<and> sortedAndFilteredMeetings tz now (mp\<lparr>sortColumn := Some c\<rparr>) =
          filterMeetings now (searchTerm mp) (statusFilter mp) (organizerFilter mp) (meetings mp))
   \<and> (f \<notin> set lead_fields \<longrightarrow>
      leadCompare f dir x y = 0
      \<and> array_sort (leadCompare f dir) ls = ls
      \<and> filteredLeads (filterEffect (st\<lparr>sortField := Some f\<rparr>)) =
          filterLeads (searchTerm_leads st) (statusFilter_leads st) (ownerFilter st) (leads st))
   \<and> ((\<forall>l \<in> set ls. or_empty (lead_field f l) = []) \<longrightarrow>
      array_sort (leadCompare f dir) ls = ls)"
proof -
  have m: "meetingCompare tz now c dir a b = 0
      \<and> array_sort (meetingCompare tz now c dir) ms = ms
      \<and> sortedAndFilteredMeetings tz now (mp\<lparr>sortColumn := Some c\<rparr>) =
          filterMeetings now (searchTerm mp) (statusFilter mp) (organizerFilter mp) (meetings mp)"
    if c: "c \<notin> set meeting_columns"
  proof -
    have noop: "array_sort (meetingCompare tz now c dir) zs = zs" for dir zs
      by (rule array_sort_noop) (simp add: meetingCompare_unknown [OF c])
    show ?thesis
      by (simp add: meetingCompare_unknown [OF c] noop sortedAndFilteredMeetings_def Let_def)
  qed
  have absent: "array_sort (leadCompare f dir) zs = zs"
    if "\<forall>l \<in> set zs. or_empty (lead_field f l) = []" for dir zs
    by (rule array_sort_noop) (simp add: leadCompare_absent that)
  have l: "leadCompare f dir x y = 0
      \<and> array_sort (leadCompare f dir) ls = ls
      \<and> filteredLeads (filterEffect (st\<lparr>sortField := Some f\<rparr>)) =
          filterLeads (searchTerm_leads st) (statusFilter_leads st) (ownerFilter st) (leads st)"
    if f: "f \<notin> set lead_fields"
  proof -
    have none: "or_empty (lead_field f z) = []" for z
      by (simp add: lead_field_unknown [OF f] or_empty_def)
    show ?thesis
      by (simp add: leadCompare_absent none absent filterEffect_def Let_def)
  qed
  from m l absent [of ls dir] show ?thesis by blast
qed

text \<open>
  Sorting two meetings by \<open>outcome\<close>, or two leads by \<open>score\<close> or by their missing
  \<open>email\<close>, leaves them in the order they had.
\<close>

theorem C8_unknown_column_noop_witness:
  "''outcome'' \<notin> set meeting_columns
   \<and> array_sort (meetingCompare 0 30 ''outcome'' Desc) [meeting_no 1, meeting_no 0]
       = [meeting_no 1, meeting_no 0]
   \<and> ''score'' \<notin> set lead_fields
   \<and> array_sort (leadCompare ''score'' Desc) [lead_no 1, lead_no 0] = [lead_no 1, lead_no 0]
   \<and> or_empty (lead_field ''email'' (lead_no 1)) = []
   \<and> or_empty (lead_field ''email'' (lead_no 0)) = []
   \<and> array_sort (leadCompare ''email'' Asc) [lead_no 1, lead_no 0] = [lead_no 1, lead_no 0]"
proof -
  have h1: "''outcome'' \<notin> set meeting_columns" by (simp add: meeting_columns_def)
  have h2: "''score'' \<notin> set lead_fields" by (simp add: lead_fields_def)
  have h3: "\<forall>l \<in> set [lead_no 1, lead_no 0]. or_empty (lead_field ''email'' l) = []"
    by (simp add: lead_no_def mk_lead_def lead_field_def or_empty_def)
  have h4: "or_empty (lead_field ''email'' (lead_no 1)) = []
      \<and> or_empty (lead_field ''email'' (lead_no 0)) = []"
    using h3 by simp
  from h1 h2 h3 h4
    C8_unknown_column_noop [where c = "''outcome''" and ms = "[meeting_no 1, meeting_no 0]"
      and tz = 0 and now = 30 and dir = Desc and f = "''score''"
      and ls = "[lead_no 1, lead_no 0]"]
    C8_unknown_column_noop [where f = "''email''" and ls = "[lead_no 1, lead_no 0]"
      and dir = Asc]
  show ?thesis by blast
qed

section \<open>Fetching the meetings\<close>

text \<open>
  C10. A successful fetch stores the transformed rows, empties the selection and clears
  \<open>loading\<close>. A failed fetch, whether the query resolves with an error or rejects, leaves
  the meetings, the displayed list and the selection as they were: it only adds the error
  toast and clears \<open>loading\<close>.
\<close>

theorem C10_fetch_resets_selection:
  "fetchMeetings (Query_resolved data None) st =
     st\<lparr> meetings := map transform_row (case data of None \<Rightarrow> [] | Some rows \<Rightarrow> rows),
         selectedMeetings := [], loading := False \<rparr>
   \<and> selectedMeetings (fetchMeetings (Query_resolved data None) st) = []
   \<and> fetchMeetings (Query_resolved data (Some e)) st =
       st\<lparr> toasts := toasts st @ [fetch_failed_toast], loading := False \<rparr>
   \<and> meetings (fetchMeetings (Query_resolved data (Some e)) st) = meetings st
   \<and> filteredMeetings (fetchMeetings (Query_resolved data (Some e)) st) = filteredMeetings st
   \<and> selectedMeetings (fetchMeetings (Query_resolved data (Some e)) st) = selectedMeetings st
   \<and> fetchMeetings Query_rejected st =
       st\<lparr> toasts := toasts st @ [fetch_failed_toast], loading := False \<rparr>
   \<and> meetings (fetchMeetings Query_rejected st) = meetings st
   \<and> filteredMeetings (fetchMeetings Query_rejected st) = filteredMeetings st
   \<and> selectedMeetings (fetchMeetings Query_rejected st) = selectedMeetings st"
  by (simp add: fetchMeetings_def)

end
